theory Spec2Isabelle
  imports Main "HOL-Library.Word"
begin

section \<open>JavaScript strings and characters\<close>

text \<open>
  A JavaScript string is modelled as a \<open>string\<close>, a list of 8-bit characters read as
  the code units U+0000 to U+00FF. Time stamps (\<open>Date.now()\<close>) are integers.
\<close>

definition code :: "char \<Rightarrow> nat" where
  "code c = of_char c"

text \<open>The character classes of the regular expressions of the source.\<close>

definition is_digit :: "char \<Rightarrow> bool" where
  "is_digit c = (let n = code c in 48 \<le> n \<and> n \<le> 57)"

definition is_upper :: "char \<Rightarrow> bool" where
  "is_upper c = (let n = code c in 65 \<le> n \<and> n \<le> 90)"

definition is_lower :: "char \<Rightarrow> bool" where
  "is_lower c = (let n = code c in 97 \<le> n \<and> n \<le> 122)"

text \<open>
  \<open>\s\<close>, and what \<open>trim()\<close> strips: tab, line feed, vertical tab, form feed, carriage
  return, space and the no-break space U+00A0 (the members of the class below U+0100).
\<close>

definition is_space :: "char \<Rightarrow> bool" where
  "is_space c = (let n = code c in (9 \<le> n \<and> n \<le> 13) \<or> n = 32 \<or> n = 160)"

text \<open>
  \<open>String.prototype.toUpperCase\<close> on the code units below U+0100: the ASCII and the
  Latin-1 lower-case letters move down by 32, the sharp s (U+00DF) becomes \<open>SS\<close>. The
  upper-case forms of U+00B5 and U+00FF lie above U+00FF; the two characters are kept,
  which no test on letters or digits of the source can tell apart.
\<close>

definition upper_char :: "char \<Rightarrow> string" where
  "upper_char c =
     (let n = code c
      in if 97 \<le> n \<and> n \<le> 122 then [char_of (n - 32)]
         else if n = 223 then ''SS''
         else if 224 \<le> n \<and> n \<le> 254 \<and> n \<noteq> 247 then [char_of (n - 32)]
         else [c])"

definition toUpperCase :: "string \<Rightarrow> string" where
  "toUpperCase s = concat (map upper_char s)"

text \<open>\<open>Number.prototype.toString()\<close> and \<open>toString(16)\<close> on a non-negative integer.\<close>

definition digit_char :: "nat \<Rightarrow> char" where
  "digit_char d = (if d < 10 then char_of (48 + d) else char_of (87 + d))"

fun toString_radix :: "nat \<Rightarrow> nat \<Rightarrow> string" where
  "toString_radix b n =
     (if b < 2 \<or> n < b then [digit_char n]
      else toString_radix b (n div b) @ [digit_char (n mod b)])"

declare toString_radix.simps [simp del]

definition padStart :: "nat \<Rightarrow> char \<Rightarrow> string \<Rightarrow> string" where
  "padStart n c s = replicate (n - length s) c @ s"

text \<open>
  \<open>parseInt\<close> of a one-character string: the digit's value, and \<open>NaN\<close> (here
  \<open>None\<close>) for every other character.
\<close>

definition parseInt_char :: "char \<Rightarrow> nat option" where
  "parseInt_char c = (if is_digit c then Some (code c - 48) else None)"

section \<open>ServerValidation.validateIBANChecksum\<close>

text \<open>
  The loop \<open>remainder = (remainder * 10 + parseInt(numericString[i])) % 97\<close>. The
  remainder is a JavaScript number: once a \<open>parseInt\<close> gives \<open>NaN\<close> it stays
  \<open>NaN\<close>.
\<close>

fun mod97_loop :: "nat option \<Rightarrow> string \<Rightarrow> nat option" where
  "mod97_loop remainder [] = remainder"
| "mod97_loop remainder (c # cs) =
     mod97_loop
       (case remainder of None \<Rightarrow> None
        | Some r \<Rightarrow> (case parseInt_char c of None \<Rightarrow> None
                    | Some d \<Rightarrow> Some ((r * 10 + d) mod 97)))
       cs"

definition letters_to_numbers :: "string \<Rightarrow> string" where
  "letters_to_numbers s =
     concat (map (\<lambda>c. if is_upper c then toString_radix 10 (code c - 55) else [c]) s)"

definition validateIBANChecksum :: "string \<Rightarrow> bool" where
  "validateIBANChecksum iban =
     (let cleanIban = toUpperCase (filter (\<lambda>c. \<not> is_space c) iban);
          rearranged = drop 4 cleanIban @ take 4 cleanIban;
          numericString = letters_to_numbers rearranged
      in mod97_loop (Some 0) numericString = Some 1)"

subsection \<open>The checksum as the specification words it\<close>

text \<open>
  Remove the white space and upper-case; move the first four characters to the end; map
  each letter to the two digits of its character code minus 55; read the digit string as
  a decimal number; require the remainder modulo 97 to be 1. A string that is not a digit
  string is not a decimal number.
\<close>

definition decimal_value :: "string \<Rightarrow> nat" where
  "decimal_value s = foldl (\<lambda>a c. 10 * a + (code c - 48)) 0 s"

definition letter_digits :: "char \<Rightarrow> string" where
  "letter_digits c =
     (if is_upper c then [digit_char ((code c - 55) div 10), digit_char ((code c - 55) mod 10)]
      else [c])"

definition iban_spec :: "string \<Rightarrow> bool" where
  "iban_spec s =
     (let t = toUpperCase (filter (\<lambda>c. \<not> is_space c) s);
          moved = drop 4 t @ take 4 t;
          digits = concat (map letter_digits moved)
      in list_all is_digit digits \<and> decimal_value digits mod 97 = 1)"

definition example_iban :: string where
  "example_iban = ''DE89370400440532013000''"

text \<open>
  The digit string of an IBAN \<open>DE\<close> followed by the digits \<open>ds\<close>, after the move of the
  first four characters and the replacement of the letters (\<open>D\<close> is 13, \<open>E\<close> is 14).
\<close>

definition DE_numeric :: "string \<Rightarrow> string" where
  "DE_numeric ds = drop 2 ds @ (''1314'' @ take 2 ds)"

section \<open>Regular expressions\<close>

text \<open>
  The patterns of the source are anchored at both ends (\<open>^...$\<close>), so \<open>test\<close> asks
  whether the whole string belongs to the pattern. A pattern is a term of \<open>rexp\<close>;
  \<open>matches\<close> decides membership by taking the derivative of the pattern by each
  character in turn.
\<close>

datatype rexp =
    Zero
  | One
  | Atom "char \<Rightarrow> bool"
  | Alt rexp rexp
  | Seq rexp rexp
  | Star rexp

fun nullable :: "rexp \<Rightarrow> bool" where
  "nullable Zero = False"
| "nullable One = True"
| "nullable (Atom P) = False"
| "nullable (Alt r s) = (nullable r \<or> nullable s)"
| "nullable (Seq r s) = (nullable r \<and> nullable s)"
| "nullable (Star r) = True"

fun alt :: "rexp \<Rightarrow> rexp \<Rightarrow> rexp" where
  "alt Zero s = s"
| "alt r Zero = r"
| "alt r s = Alt r s"

fun seq :: "rexp \<Rightarrow> rexp \<Rightarrow> rexp" where
  "seq Zero s = Zero"
| "seq r Zero = Zero"
| "seq One s = s"
| "seq r One = r"
| "seq r s = Seq r s"

fun deriv :: "char \<Rightarrow> rexp \<Rightarrow> rexp" where
  "deriv c Zero = Zero"
| "deriv c One = Zero"
| "deriv c (Atom P) = (if P c then One else Zero)"
| "deriv c (Alt r s) = alt (deriv c r) (deriv c s)"
| "deriv c (Seq r s) =
     (if nullable r then alt (seq (deriv c r) s) (deriv c s) else seq (deriv c r) s)"
| "deriv c (Star r) = seq (deriv c r) (Star r)"

fun matches :: "rexp \<Rightarrow> string \<Rightarrow> bool" where
  "matches r [] = nullable r"
| "matches r (c # cs) = matches (deriv c r) cs"

text \<open>The quantifiers \<open>{n}\<close>, \<open>?\<close>, \<open>+\<close>, \<open>{0,n}\<close> and \<open>{n,}\<close>.\<close>

fun exactly :: "nat \<Rightarrow> rexp \<Rightarrow> rexp" where
  "exactly 0 r = One"
| "exactly (Suc n) r = Seq r (exactly n r)"

definition optional :: "rexp \<Rightarrow> rexp" where
  "optional r = Alt r One"

definition one_or_more :: "rexp \<Rightarrow> rexp" where
  "one_or_more r = Seq r (Star r)"

definition at_most :: "nat \<Rightarrow> rexp \<Rightarrow> rexp" where
  "at_most n r = exactly n (optional r)"

definition at_least :: "nat \<Rightarrow> rexp \<Rightarrow> rexp" where
  "at_least n r = Seq (exactly n r) (Star r)"

definition lit :: "char \<Rightarrow> rexp" where
  "lit c = Atom (\<lambda>x. x = c)"

text \<open>The meaning of a pattern: the set of strings it describes.\<close>

inductive_set star :: "string set \<Rightarrow> string set" for L :: "string set" where
  star_empty: "[] \<in> star L"
| star_step: "u \<in> L \<Longrightarrow> v \<in> star L \<Longrightarrow> u @ v \<in> star L"

fun lang :: "rexp \<Rightarrow> string set" where
  "lang Zero = {}"
| "lang One = {[]}"
| "lang (Atom P) = {[c] | c. P c}"
| "lang (Alt r s) = lang r \<union> lang s"
| "lang (Seq r s) = {u @ v | u v. u \<in> lang r \<and> v \<in> lang s}"
| "lang (Star r) = star (lang r)"

section \<open>JavaScript values\<close>

text \<open>
  The values the modelled functions exchange with their callers and with storage. Numbers
  are the integers (time stamps, counts, lengths); an object is the list of its
  properties in insertion order.
\<close>

datatype jsval =
    JUndefined
  | JNull
  | JBool bool
  | JNum int
  | JStr string
  | JArr "jsval list"
  | JObj "(string \<times> jsval) list"

type_synonym byte = "8 word"

section \<open>ServerValidation.sanitizeInput\<close>

definition trim :: "string \<Rightarrow> string" where
  "trim s = rev (dropWhile is_space (rev (dropWhile is_space s)))"

text \<open>\<open>s.replace(/[...]/g, '')\<close> with a class of characters: every member is removed.\<close>

definition remove_chars :: "string \<Rightarrow> string \<Rightarrow> string" where
  "remove_chars cs s = filter (\<lambda>c. c \<notin> set cs) s"

text \<open>
  The canonical form of a character under the flag \<open>i\<close> (without \<open>u\<close>): its upper
  case when that is one code unit, except that a character from U+0080 on never becomes
  an ASCII one.
\<close>

definition canonicalize :: "char \<Rightarrow> char" where
  "canonicalize c =
     (case upper_char c of
        [u] \<Rightarrow> if 128 \<le> code c \<and> code u < 128 then c else u
      | _ \<Rightarrow> c)"

text \<open>Does the word \<open>pat\<close> start the string, case-insensitively?\<close>

fun starts_with_ci :: "string \<Rightarrow> string \<Rightarrow> bool" where
  "starts_with_ci [] s = True"
| "starts_with_ci (p # ps) [] = False"
| "starts_with_ci (p # ps) (c # cs) =
     (if canonicalize c = canonicalize p then starts_with_ci ps cs else False)"

text \<open>
  \<open>s.replace(/word/gi, '')\<close> with a literal word: one scan from left to right; where
  the word starts, it is skipped and the scan goes on behind it; elsewhere the character is
  kept. The result is not scanned again.
\<close>

fun replace_ci :: "string \<Rightarrow> string \<Rightarrow> string" where
  "replace_ci pat [] = []"
| "replace_ci pat (c # cs) =
     (if starts_with_ci pat (c # cs) then replace_ci pat (drop (length pat - 1) cs)
      else c # replace_ci pat cs)"

definition sanitize_string :: "string \<Rightarrow> string" where
  "sanitize_string input =
     (replace_ci ''onkeypress''
     (replace_ci ''onkeyup''
     (replace_ci ''onkeydown''
     (replace_ci ''onselect''
     (replace_ci ''onreset''
     (replace_ci ''onsubmit''
     (replace_ci ''onchange''
     (replace_ci ''onblur''
     (replace_ci ''onfocus''
     (replace_ci ''onmouseover''
     (replace_ci ''onclick''
     (replace_ci ''onerror''
     (replace_ci ''onload''
     (replace_ci ''javascript''
     (replace_ci ''script''
     (remove_chars ''[]''
     (remove_chars ''{}''
     (remove_chars ''()''
     (remove_chars '';''
     (remove_chars [CHR 0x27, CHR 0x22]
     (remove_chars ''<>''
     (trim input))))))))))))))))))))))"

text \<open>\<open>if (typeof input !== 'string') return input\<close>.\<close>

fun sanitizeInput :: "jsval \<Rightarrow> jsval" where
  "sanitizeInput (JStr s) = JStr (sanitize_string s)"
| "sanitizeInput v = v"

text \<open>What the claim about the result speaks of.\<close>

fun contains_ci :: "string \<Rightarrow> string \<Rightarrow> bool" where
  "contains_ci pat [] = starts_with_ci pat []"
| "contains_ci pat (c # cs) = (starts_with_ci pat (c # cs) \<or> contains_ci pat cs)"

definition denied_chars :: string where
  "denied_chars = ''<>'' @ [CHR 0x27, CHR 0x22] @ '';(){}[]''"

definition denied_words :: "string list" where
  "denied_words =
     [''script'', ''javascript'', ''onload'', ''onerror'', ''onclick'', ''onmouseover'',
      ''onfocus'', ''onblur'', ''onchange'', ''onsubmit'', ''onreset'', ''onselect'',
      ''onkeydown'', ''onkeyup'', ''onkeypress'']"

definition sanitized :: "string \<Rightarrow> bool" where
  "sanitized s =
     (list_all (\<lambda>c. c \<notin> set denied_chars) s \<and>
      list_all (\<lambda>w. \<not> contains_ci w s) denied_words)"

section \<open>Session tokens\<close>

text \<open>
  \<open>Array.from(array, byte => byte.toString(16).padStart(2, '0')).join('')\<close>, the
  rendering shared by \<open>generateSessionToken\<close>, \<open>hashPassword\<close> and
  \<open>generateDataHash\<close>.
\<close>

definition to_hex :: "byte list \<Rightarrow> string" where
  "to_hex bs = concat (map (\<lambda>b. padStart 2 (CHR ''0'') (toString_radix 16 (unat b))) bs)"

text \<open>
  \<open>generateSessionToken\<close>: the argument is the content of the 32-byte array after
  \<open>crypto.getRandomValues\<close> has filled it.
\<close>

definition generateSessionToken :: "byte list \<Rightarrow> string" where
  "generateSessionToken array = to_hex array"

definition is_hex_lower :: "char \<Rightarrow> bool" where
  "is_hex_lower c = (let n = code c in (97 \<le> n \<and> n \<le> 102) \<or> (48 \<le> n \<and> n \<le> 57))"

definition tokenRegex :: rexp where
  "tokenRegex = exactly 64 (Atom is_hex_lower)"

fun validateSessionToken :: "jsval \<Rightarrow> bool" where
  "validateSessionToken (JStr token) = (token \<noteq> [] \<and> matches tokenRegex token)"
| "validateSessionToken v = False"

section \<open>ServerValidation.checkRateLimit\<close>

text \<open>
  The entries \<open>rate_limit_<action>_<identifier>\<close> of \<open>localStorage\<close>, each the
  array of the time stamps of the recorded attempts; a missing entry reads as the empty
  array. \<open>resetTime\<close> of a denied call is \<open>attempts[0] + windowMs\<close>, which is
  \<open>NaN\<close> (here \<open>None\<close>) when there is no first attempt.
\<close>

type_synonym attempt_store = "string \<rightharpoonup> int list"

record rate_result =
  allowed :: bool
  remaining :: int
  resetTime :: "int option"

definition rate_key :: "string \<Rightarrow> string \<Rightarrow> string" where
  "rate_key identifier action = ''rate_limit_'' @ action @ ''_'' @ identifier"

definition checkRateLimit ::
  "int \<Rightarrow> attempt_store \<Rightarrow> string \<Rightarrow> string \<Rightarrow> int \<Rightarrow> int \<Rightarrow> rate_result \<times> attempt_store" where
  "checkRateLimit now store identifier action limit windowMs =
     (let key = rate_key identifier action;
          windowStart = now - windowMs;
          attempts = filter (\<lambda>timestamp. timestamp > windowStart)
                       (case store key of None \<Rightarrow> [] | Some a \<Rightarrow> a)
      in if int (length attempts) \<ge> limit then
           (\<lparr>allowed = False, remaining = 0,
             resetTime = (case attempts of [] \<Rightarrow> None | t # _ \<Rightarrow> Some (t + windowMs))\<rparr>,
            store)
         else
           (let attempts' = attempts @ [now]
            in (\<lparr>allowed = True, remaining = limit - int (length attempts'),
                 resetTime = Some (now + windowMs)\<rparr>,
                store(key \<mapsto> attempts'))))"

section \<open>The platform\<close>

text \<open>
  The functions of the browser that the source calls and does not define. A model
  function that depends on them takes the platform \<open>P\<close> as its first argument.
  \<^item> \<open>JSON_stringify\<close>, \<open>JSON_parse\<close>: \<open>JSON.stringify\<close> and \<open>JSON.parse\<close>
    (\<open>None\<close> when it throws);
  \<^item> \<open>utf8_encode\<close>, \<open>utf8_decode\<close>: \<open>TextEncoder.encode\<close> and
    \<open>TextDecoder.decode\<close>;
  \<^item> \<open>btoa_bytes\<close>: \<open>btoa(String.fromCharCode(...bytes))\<close>, without the limit an
    engine puts on the number of arguments of a call;
  \<^item> \<open>atob_bytes\<close>: the bytes \<open>atob(x).split('').map(char => char.charCodeAt(0))\<close>
    (\<open>None\<close> when \<open>atob\<close> throws);
  \<^item> \<open>pbkdf2\<close>: \<open>importKey\<close> and \<open>deriveKey\<close> of \<open>deriveKeyFromPassword\<close>
    (PBKDF2, SHA-256, 100000 iterations, a 256-bit AES-GCM key);
  \<^item> \<open>aes_gcm_encrypt\<close>, \<open>aes_gcm_decrypt\<close>: \<open>crypto.subtle.encrypt\<close> and
    \<open>decrypt\<close> with a 128-bit tag, applied to key, IV and data (\<open>None\<close> when the
    promise rejects);
  \<^item> \<open>sha256\<close>: \<open>crypto.subtle.digest('SHA-256', _)\<close>;
  \<^item> \<open>toISOString\<close>: \<open>new Date(t).toISOString()\<close>.
  The clock and the random source are arguments: \<open>now\<close> is the value of the clock
  during the call (every reading within one call gives the same value), \<open>salt\<close> and
  \<open>iv\<close> are the arrays that \<open>generateSalt\<close> and \<open>generateIV\<close> return.
\<close>

record platform =
  JSON_stringify :: "jsval \<Rightarrow> string"
  JSON_parse :: "string \<Rightarrow> jsval option"
  utf8_encode :: "string \<Rightarrow> byte list"
  utf8_decode :: "byte list \<Rightarrow> string"
  btoa_bytes :: "byte list \<Rightarrow> string"
  atob_bytes :: "jsval \<Rightarrow> byte list option"
  pbkdf2 :: "string \<Rightarrow> byte list \<Rightarrow> byte list"
  aes_gcm_encrypt :: "byte list \<Rightarrow> byte list \<Rightarrow> byte list \<Rightarrow> byte list option"
  aes_gcm_decrypt :: "byte list \<Rightarrow> byte list \<Rightarrow> byte list \<Rightarrow> byte list option"
  sha256 :: "byte list \<Rightarrow> byte list"
  toISOString :: "int \<Rightarrow> string"

section \<open>Objects\<close>

definition nullish :: "jsval \<Rightarrow> bool" where
  "nullish v = (v = JUndefined \<or> v = JNull)"

text \<open>
  The own enumerable properties of a value, as an object spread or a rest pattern sees
  them: those of an object; the characters of a string and the elements of an array under
  their indices; none otherwise.
\<close>

definition index_keys :: "nat \<Rightarrow> string list" where
  "index_keys n = map (toString_radix 10) [0..<n]"

fun own_props :: "jsval \<Rightarrow> (string \<times> jsval) list" where
  "own_props (JObj kv) = kv"
| "own_props (JStr s) = zip (index_keys (length s)) (map (\<lambda>c. JStr [c]) s)"
| "own_props (JArr xs) = zip (index_keys (length xs)) xs"
| "own_props v = []"

text \<open>
  Reading the property \<open>v.k\<close> of a value that is neither \<open>null\<close> nor
  \<open>undefined\<close>, for the property names the source uses (none is an index or
  \<open>length\<close>): the property of an object, \<open>undefined\<close> where there is none.
\<close>

fun get_prop :: "jsval \<Rightarrow> string \<Rightarrow> jsval" where
  "get_prop (JObj kv) k = (case map_of kv k of None \<Rightarrow> JUndefined | Some v \<Rightarrow> v)"
| "get_prop v k = JUndefined"

text \<open>Writing a property: in place when the object has it, at the end otherwise.\<close>

fun obj_set :: "string \<Rightarrow> jsval \<Rightarrow> (string \<times> jsval) list \<Rightarrow> (string \<times> jsval) list" where
  "obj_set k v [] = [(k, v)]"
| "obj_set k v (p # ps) = (if fst p = k then (k, v) # ps else p # obj_set k v ps)"

text \<open>\<open>{...a, ...b}\<close> is \<open>spread (own_props b) (spread (own_props a) [])\<close>.\<close>

definition spread :: "(string \<times> jsval) list \<Rightarrow> (string \<times> jsval) list \<Rightarrow> (string \<times> jsval) list" where
  "spread props target = foldl (\<lambda>obj (k, v). obj_set k v obj) target props"

text \<open>\<open>!v || typeof v !== 'string'\<close> is false: \<open>v\<close> is a non-empty string.\<close>

fun is_nonempty_string :: "jsval \<Rightarrow> bool" where
  "is_nonempty_string (JStr s) = (s \<noteq> [])"
| "is_nonempty_string v = False"

fun string_of :: "jsval \<Rightarrow> string" where
  "string_of (JStr s) = s"
| "string_of v = []"

section \<open>WaxEncountersSecurity\<close>

datatype error =
    Invalid_user_data
  | Failed_to_encrypt
  | Failed_to_decrypt
  | Integrity_check_failed
  | Type_error
  | Syntax_error
  | No_user_data
  | Failed_to_retrieve
  | Cannot_retrieve

text \<open>The calls of the Web Crypto API, in the order in which they are made.\<close>

datatype call = Call_deriveKey | Call_encrypt | Call_decrypt | Call_digest

record session =
  sessionId :: string
  createdAt :: int
  lastActivity :: int
  isActive :: bool

text \<open>
  The state: the entry \<open>wax_encounters_user_data\<close> of \<open>localStorage\<close> (the stored
  string), the entry \<open>wax_encounters_user_session\<close> (the session object written by
  \<open>setSession\<close>), and the record of the calls made so far. Writing to
  \<open>localStorage\<close> always succeeds.
\<close>

record world =
  user_data_item :: "string option"
  session_item :: "session option"
  calls :: "call list"

definition called :: "call list \<Rightarrow> world \<Rightarrow> world" where
  "called cs w = w\<lparr>calls := calls w @ cs\<rparr>"

definition saltLength :: nat where
  "saltLength = 32"

definition ivLength :: nat where
  "ivLength = 12"

definition encryptUserData ::
  "platform \<Rightarrow> byte list \<Rightarrow> byte list \<Rightarrow> jsval \<Rightarrow> string \<Rightarrow> world \<Rightarrow> (error + string) \<times> world" where
  "encryptUserData P salt iv data password w =
     (let key = pbkdf2 P password salt;
          w1 = called [Call_deriveKey, Call_encrypt] w
      in case aes_gcm_encrypt P key iv (utf8_encode P (JSON_stringify P data)) of
           None \<Rightarrow> (Inl Failed_to_encrypt, w1)
         | Some encryptedData \<Rightarrow> (Inr (btoa_bytes P (salt @ iv @ encryptedData)), w1))"

definition decryptUserData ::
  "platform \<Rightarrow> jsval \<Rightarrow> string \<Rightarrow> world \<Rightarrow> (error + jsval) \<times> world" where
  "decryptUserData P encryptedData password w =
     (case atob_bytes P encryptedData of
        None \<Rightarrow> (Inl Failed_to_decrypt, w)
      | Some combined \<Rightarrow>
          (let salt = take saltLength combined;
               iv = take ivLength (drop saltLength combined);
               encrypted = drop (saltLength + ivLength) combined;
               key = pbkdf2 P password salt;
               w1 = called [Call_deriveKey, Call_decrypt] w
           in case aes_gcm_decrypt P key iv encrypted of
                None \<Rightarrow> (Inl Failed_to_decrypt, w1)
              | Some decryptedData \<Rightarrow>
                  (case JSON_parse P (utf8_decode P decryptedData) of
                     None \<Rightarrow> (Inl Failed_to_decrypt, w1)
                   | Some v \<Rightarrow> (Inr v, w1))))"

definition hashPassword :: "platform \<Rightarrow> string \<Rightarrow> world \<Rightarrow> string \<times> world" where
  "hashPassword P password w =
     (to_hex (sha256 P (utf8_encode P password)), called [Call_digest] w)"

definition generateDataHash :: "platform \<Rightarrow> jsval \<Rightarrow> world \<Rightarrow> string \<times> world" where
  "generateDataHash P data w =
     (to_hex (sha256 P (utf8_encode P (JSON_stringify P data))), called [Call_digest] w)"

definition verifyDataIntegrity :: "platform \<Rightarrow> jsval \<Rightarrow> jsval \<Rightarrow> world \<Rightarrow> bool \<times> world" where
  "verifyDataIntegrity P data expectedHash w =
     (case generateDataHash P data w of
        (actualHash, w1) \<Rightarrow> (JStr actualHash = expectedHash, w1))"

definition emailRegex :: rexp where
  "emailRegex =
     Seq (one_or_more (Atom (\<lambda>c. is_lower c \<or> is_upper c \<or> is_digit c \<or> c \<in> set ''._%+-'')))
    (Seq (lit (CHR ''@''))
    (Seq (one_or_more (Atom (\<lambda>c. is_lower c \<or> is_upper c \<or> is_digit c \<or> c \<in> set ''.-'')))
    (Seq (lit (CHR ''.''))
         (at_least 2 (Atom (\<lambda>c. is_lower c \<or> is_upper c))))))"

definition ibanRegex :: rexp where
  "ibanRegex =
     Seq (exactly 2 (Atom is_upper))
    (Seq (exactly 2 (Atom is_digit))
    (Seq (exactly 4 (Atom (\<lambda>c. is_upper c \<or> is_digit c)))
    (Seq (exactly 7 (Atom is_digit))
         (at_most 16 (optional (Atom (\<lambda>c. is_upper c \<or> is_digit c)))))))"

definition bicRegex :: rexp where
  "bicRegex =
     Seq (exactly 6 (Atom is_upper))
    (Seq (exactly 2 (Atom (\<lambda>c. is_upper c \<or> is_digit c)))
         (optional (exactly 3 (Atom (\<lambda>c. is_upper c \<or> is_digit c)))))"

definition validateEmail :: "string \<Rightarrow> bool" where
  "validateEmail email = matches emailRegex email"

definition validateIBAN :: "string \<Rightarrow> bool" where
  "validateIBAN iban = matches ibanRegex (filter (\<lambda>c. \<not> is_space c) iban)"

definition validateBIC :: "string \<Rightarrow> bool" where
  "validateBIC bic = matches bicRegex bic"

definition prepareSecureData ::
  "platform \<Rightarrow> int \<Rightarrow> byte list \<Rightarrow> byte list \<Rightarrow> jsval \<Rightarrow> string \<Rightarrow> world \<Rightarrow> (error + jsval) \<times> world" where
  "prepareSecureData P now salt iv userData password w =
     (if nullish userData then (Inl Type_error, w)
      else
        (let sensitiveData = JObj
               [(''firstName'', get_prop userData ''firstName''),
                (''lastName'', get_prop userData ''lastName''),
                (''email'', get_prop userData ''email''),
                (''phone'', get_prop userData ''phone''),
                (''shippingAddress'', get_prop userData ''shippingAddress''),
                (''iban'', get_prop userData ''iban''),
                (''bic'', get_prop userData ''bic''),
                (''bankAccountOwner'', get_prop userData ''bankAccountOwner'')];
             nonSensitiveData = JObj
               [(''registrationDate'', JStr (toISOString P now)),
                (''termsAccepted'', get_prop userData ''termsAccepted''),
                (''privacyAccepted'', get_prop userData ''privacyAccepted''),
                (''emailVerified'', JBool False),
                (''accountStatus'', JStr ''pending_verification'')]
         in case encryptUserData P salt iv sensitiveData password w of
              (Inl e, w1) \<Rightarrow> (Inl e, w1)
            | (Inr encryptedSensitiveData, w1) \<Rightarrow>
                (case hashPassword P password w1 of
                   (hashedPassword, w2) \<Rightarrow>
                     (Inr (JObj
                        [(''encryptedData'', JStr encryptedSensitiveData),
                         (''nonSensitiveData'', nonSensitiveData),
                         (''hashedPassword'', JStr hashedPassword),
                         (''securityMetadata'', JObj
                            [(''encryptionAlgorithm'', JStr ''AES-GCM''),
                             (''keyDerivation'', JStr ''PBKDF2''),
                             (''iterations'', JNum 100000),
                             (''saltLength'', JNum (int saltLength)),
                             (''ivLength'', JNum (int ivLength)),
                             (''tagLength'', JNum 128),
                             (''encryptedAt'', JStr (toISOString P now))])]),
                      w2))))"

section \<open>SecureStorageManager\<close>

datatype store_result = Stored string | Store_failed error

datatype retrieve_result = Retrieved jsval | Retrieve_failed error

definition updateSession :: "int \<Rightarrow> bool \<Rightarrow> world \<Rightarrow> world" where
  "updateSession now active w =
     (case session_item w of
        None \<Rightarrow> w
      | Some s \<Rightarrow> w\<lparr>session_item := Some (s\<lparr>lastActivity := now, isActive := active\<rparr>)\<rparr>)"

definition clearSession :: "world \<Rightarrow> world" where
  "clearSession w = w\<lparr>session_item := None\<rparr>"

definition isSessionValid :: "int \<Rightarrow> world \<Rightarrow> bool" where
  "isSessionValid now w =
     (case session_item w of
        None \<Rightarrow> False
      | Some s \<Rightarrow>
          (let sessionAge = now - lastActivity s
           in isActive s \<and> sessionAge < 24 * 60 * 60 * 1000))"

definition requiredFields :: "string list" where
  "requiredFields =
     [''firstName'', ''lastName'', ''email'', ''shippingAddress'',
      ''iban'', ''bic'', ''bankAccountOwner'', ''password'']"

text \<open>
  \<open>validateUserData\<close>. Reading a property of \<open>null\<close> or \<open>undefined\<close> throws a
  \<open>TypeError\<close>. After the loop the three values handed to the format checks are
  strings.
\<close>

definition validateUserData :: "jsval \<Rightarrow> error + bool" where
  "validateUserData userData =
     (if nullish userData then Inl Type_error
      else if \<not> list_all (\<lambda>field. is_nonempty_string (get_prop userData field)) requiredFields
        then Inr False
      else if \<not> validateEmail (string_of (get_prop userData ''email'')) then Inr False
      else if \<not> validateIBAN (string_of (get_prop userData ''iban'')) then Inr False
      else if \<not> validateBIC (string_of (get_prop userData ''bic'')) then Inr False
      else Inr True)"

text \<open>
  The body of the \<open>try\<close> block of \<open>storeUserData\<close>; \<open>Inl\<close> is a thrown error. The
  last line reads \<open>this.getSession().sessionId\<close> and throws a \<open>TypeError\<close> when
  there is no session.
\<close>

definition storeUserData_try ::
  "platform \<Rightarrow> int \<Rightarrow> byte list \<Rightarrow> byte list \<Rightarrow> world \<Rightarrow> jsval \<Rightarrow> string \<Rightarrow> (error + string) \<times> world" where
  "storeUserData_try P now salt iv w userData password =
     (case validateUserData userData of
        Inl e \<Rightarrow> (Inl e, w)
      | Inr False \<Rightarrow> (Inl Invalid_user_data, w)
      | Inr True \<Rightarrow>
          (case prepareSecureData P now salt iv userData password w of
             (Inl e, w1) \<Rightarrow> (Inl e, w1)
           | (Inr secureData, w1) \<Rightarrow>
               (let storageObject = JObj
                      (obj_set ''version'' (JStr ''1.0'')
                        (obj_set ''storedAt'' (JNum now)
                          (spread (own_props secureData) [])))
                in case generateDataHash P storageObject w1 of
                     (dataHash, w2) \<Rightarrow>
                       (let storageObject' = JObj
                              (obj_set ''dataHash'' (JStr dataHash) (own_props storageObject));
                            w3 = w2\<lparr>user_data_item := Some (JSON_stringify P storageObject')\<rparr>;
                            w4 = updateSession now True w3
                        in case session_item w4 of
                             None \<Rightarrow> (Inl Type_error, w4)
                           | Some s \<Rightarrow> (Inr (sessionId s), w4)))))"

definition storeUserData ::
  "platform \<Rightarrow> int \<Rightarrow> byte list \<Rightarrow> byte list \<Rightarrow> world \<Rightarrow> jsval \<Rightarrow> string \<Rightarrow> store_result \<times> world" where
  "storeUserData P now salt iv w userData password =
     (case storeUserData_try P now salt iv w userData password of
        (Inr sid, w') \<Rightarrow> (Stored sid, w')
      | (Inl e, w') \<Rightarrow> (Store_failed e, w'))"

text \<open>
  The body of the \<open>try\<close> block of \<open>retrieveUserData\<close>. \<open>!storedData\<close> holds for a
  missing entry and for the empty string. The \<open>catch\<close> block turns every thrown error
  into the failure \<open>Failed to retrieve user data\<close>.
\<close>

definition retrieveUserData_try ::
  "platform \<Rightarrow> int \<Rightarrow> world \<Rightarrow> string \<Rightarrow> (error + retrieve_result) \<times> world" where
  "retrieveUserData_try P now w password =
     (case user_data_item w of
        None \<Rightarrow> (Inr (Retrieve_failed No_user_data), w)
      | Some storedData \<Rightarrow>
          if storedData = [] then (Inr (Retrieve_failed No_user_data), w)
          else
            (case JSON_parse P storedData of
               None \<Rightarrow> (Inl Syntax_error, w)
             | Some parsedData \<Rightarrow>
                 if nullish parsedData then (Inl Type_error, w)
                 else
                   (let dataHash = get_prop parsedData ''dataHash'';
                        dataToVerify = JObj
                          (filter (\<lambda>(k, v). k \<noteq> ''dataHash'') (own_props parsedData))
                    in case verifyDataIntegrity P dataToVerify dataHash w of
                         (isValid, w1) \<Rightarrow>
                           if \<not> isValid then (Inl Integrity_check_failed, w1)
                           else
                             (case decryptUserData P (get_prop parsedData ''encryptedData'')
                                     password w1 of
                                (Inl e, w2) \<Rightarrow> (Inl e, w2)
                              | (Inr decryptedData, w2) \<Rightarrow>
                                  (Inr (Retrieved (JObj
                                     (spread (own_props (get_prop parsedData ''nonSensitiveData''))
                                       (spread (own_props decryptedData) [])))),
                                   updateSession now True w2)))))"

definition retrieveUserData ::
  "platform \<Rightarrow> int \<Rightarrow> world \<Rightarrow> string \<Rightarrow> retrieve_result \<times> world" where
  "retrieveUserData P now w password =
     (case retrieveUserData_try P now w password of
        (Inr r, w') \<Rightarrow> (r, w')
      | (Inl e, w') \<Rightarrow> (Retrieve_failed Failed_to_retrieve, w'))"

definition updateUserData ::
  "platform \<Rightarrow> int \<Rightarrow> byte list \<Rightarrow> byte list \<Rightarrow> world \<Rightarrow> jsval \<Rightarrow> string \<Rightarrow> store_result \<times> world" where
  "updateUserData P now salt iv w updatedData password =
     (case retrieveUserData P now w password of
        (Retrieve_failed e, w1) \<Rightarrow> (Store_failed Cannot_retrieve, w1)
      | (Retrieved existingData, w1) \<Rightarrow>
          (let mergedData = JObj
                 (spread (own_props updatedData) (spread (own_props existingData) []))
           in storeUserData P now salt iv w1 mergedData password))"

definition deleteUserData :: "world \<Rightarrow> world" where
  "deleteUserData w = clearSession (w\<lparr>user_data_item := None\<rparr>)"

text \<open>
  \<open>initializeSession\<close>: a fresh, inactive session when there is none; \<open>token\<close> is
  the 32-byte array of \<open>generateSessionToken\<close>.
\<close>

definition initializeSession :: "int \<Rightarrow> byte list \<Rightarrow> world \<Rightarrow> world" where
  "initializeSession now token w =
     (case session_item w of
        None \<Rightarrow> w\<lparr>session_item := Some
          \<lparr>sessionId = generateSessionToken token, createdAt = now,
           lastActivity = now, isActive = False\<rparr>\<rparr>
      | Some s \<Rightarrow> w)"

section \<open>A platform for the examples\<close>

text \<open>
  A small platform on which the functions above can be run: a compact JSON printer and
  the parser of its output (strings without escapes, integer numbers), the identity
  between characters and bytes in place of UTF-8 and of base64 (the examples are ASCII),
  and stand-ins for the cryptography: the key is the password followed by the salt, cut
  to 32 bytes; the cipher appends to the plain text a 16-byte tag made of key and IV, and
  decryption checks the tag; the digest is the sum and the number of the bytes.
\<close>

definition show_int :: "int \<Rightarrow> string" where
  "show_int i = (if i < 0 then CHR ''-'' # toString_radix 10 (nat (- i)) else toString_radix 10 (nat i))"

definition quote :: "string \<Rightarrow> string" where
  "quote s = [CHR 0x22] @ s @ [CHR 0x22]"

fun show_json :: "jsval \<Rightarrow> string"
  and show_elements :: "jsval list \<Rightarrow> string"
  and show_members :: "bool \<Rightarrow> (string \<times> jsval) list \<Rightarrow> string" where
  "show_json JUndefined = ''null''"
| "show_json JNull = ''null''"
| "show_json (JBool b) = (if b then ''true'' else ''false'')"
| "show_json (JNum i) = show_int i"
| "show_json (JStr s) = quote s"
| "show_json (JArr xs) = ''['' @ show_elements xs @ '']''"
| "show_json (JObj kv) = ''{'' @ show_members True kv @ ''}''"
| "show_elements [] = []"
| "show_elements [x] = show_json x"
| "show_elements (x # y # ys) = show_json x @ '','' @ show_elements (y # ys)"
| "show_members first [] = []"
| "show_members first ((k, v) # kv) =
     (if v = JUndefined then show_members first kv
      else (if first then [] else '','') @ quote k @ '':'' @ show_json v @ show_members False kv)"

fun strip_prefix :: "string \<Rightarrow> string \<Rightarrow> string option" where
  "strip_prefix [] s = Some s"
| "strip_prefix (p # ps) [] = None"
| "strip_prefix (p # ps) (c # cs) = (if c = p then strip_prefix ps cs else None)"

fun read_string :: "string \<Rightarrow> (string \<times> string) option" where
  "read_string [] = None"
| "read_string (c # cs) =
     (if c = CHR 0x22 then Some ([], cs)
      else (case read_string cs of None \<Rightarrow> None | Some (s, r) \<Rightarrow> Some (c # s, r)))"

definition read_nat :: "string \<Rightarrow> (int \<times> string) option" where
  "read_nat s =
     (let ds = takeWhile is_digit s
      in if ds = [] then None else Some (int (decimal_value ds), dropWhile is_digit s))"

text \<open>
  The parser reads one value from the front of the input and returns it with the rest;
  the first argument bounds the depth of the recursion.
\<close>

fun read_value :: "nat \<Rightarrow> string \<Rightarrow> (jsval \<times> string) option"
  and read_elements :: "nat \<Rightarrow> string \<Rightarrow> (jsval list \<times> string) option"
  and read_members :: "nat \<Rightarrow> string \<Rightarrow> ((string \<times> jsval) list \<times> string) option" where
  "read_value 0 s = None"
| "read_value (Suc n) s =
     (case strip_prefix ''null'' s of Some r \<Rightarrow> Some (JNull, r) | None \<Rightarrow>
      case strip_prefix ''true'' s of Some r \<Rightarrow> Some (JBool True, r) | None \<Rightarrow>
      case strip_prefix ''false'' s of Some r \<Rightarrow> Some (JBool False, r) | None \<Rightarrow>
      case strip_prefix [CHR 0x22] s of
        Some r \<Rightarrow> (case read_string r of None \<Rightarrow> None | Some (str, r') \<Rightarrow> Some (JStr str, r'))
      | None \<Rightarrow>
      case strip_prefix ''[]'' s of Some r \<Rightarrow> Some (JArr [], r) | None \<Rightarrow>
      case strip_prefix ''['' s of
        Some r \<Rightarrow> (case read_elements n r of None \<Rightarrow> None | Some (xs, r') \<Rightarrow> Some (JArr xs, r'))
      | None \<Rightarrow>
      case strip_prefix ''{}'' s of Some r \<Rightarrow> Some (JObj [], r) | None \<Rightarrow>
      case strip_prefix ''{'' s of
        Some r \<Rightarrow> (case read_members n r of None \<Rightarrow> None | Some (kv, r') \<Rightarrow> Some (JObj kv, r'))
      | None \<Rightarrow>
      case strip_prefix ''-'' s of
        Some r \<Rightarrow> (case read_nat r of None \<Rightarrow> None | Some (i, r') \<Rightarrow> Some (JNum (- i), r'))
      | None \<Rightarrow>
        (case read_nat s of None \<Rightarrow> None | Some (i, r') \<Rightarrow> Some (JNum i, r')))"
| "read_elements 0 s = None"
| "read_elements (Suc n) s =
     (case read_value n s of
        None \<Rightarrow> None
      | Some (x, r) \<Rightarrow>
          (case strip_prefix '']'' r of Some r' \<Rightarrow> Some ([x], r') | None \<Rightarrow>
           case strip_prefix '','' r of
             None \<Rightarrow> None
           | Some r' \<Rightarrow>
               (case read_elements n r' of None \<Rightarrow> None | Some (xs, r'') \<Rightarrow> Some (x # xs, r''))))"
| "read_members 0 s = None"
| "read_members (Suc n) s =
     (case strip_prefix [CHR 0x22] s of
        None \<Rightarrow> None
      | Some r \<Rightarrow>
          (case read_string r of
             None \<Rightarrow> None
           | Some (k, r1) \<Rightarrow>
               (case strip_prefix '':'' r1 of
                  None \<Rightarrow> None
                | Some r2 \<Rightarrow>
                    (case read_value n r2 of
                       None \<Rightarrow> None
                     | Some (v, r3) \<Rightarrow>
                         (case strip_prefix ''}'' r3 of Some r4 \<Rightarrow> Some ([(k, v)], r4) | None \<Rightarrow>
                          case strip_prefix '','' r3 of
                            None \<Rightarrow> None
                          | Some r4 \<Rightarrow>
                              (case read_members n r4 of
                                 None \<Rightarrow> None
                               | Some (kv, r5) \<Rightarrow> Some ((k, v) # kv, r5)))))))"

definition read_json :: "string \<Rightarrow> jsval option" where
  "read_json s =
     (case read_value (Suc (length s)) s of
        Some (v, []) \<Rightarrow> Some v
      | _ \<Rightarrow> None)"

definition bytes_of :: "string \<Rightarrow> byte list" where
  "bytes_of s = map (\<lambda>c. of_nat (code c)) s"

definition chars_of :: "byte list \<Rightarrow> string" where
  "chars_of bs = map (\<lambda>b. char_of (unat b)) bs"

definition demo_tag :: "byte list \<Rightarrow> byte list \<Rightarrow> byte list" where
  "demo_tag key iv = take 16 (key @ iv @ replicate 16 0)"

definition demo_encrypt :: "byte list \<Rightarrow> byte list \<Rightarrow> byte list \<Rightarrow> byte list option" where
  "demo_encrypt key iv plain = Some (plain @ demo_tag key iv)"

definition demo_decrypt :: "byte list \<Rightarrow> byte list \<Rightarrow> byte list \<Rightarrow> byte list option" where
  "demo_decrypt key iv cipher =
     (if 16 \<le> length cipher \<and> drop (length cipher - 16) cipher = demo_tag key iv
      then Some (take (length cipher - 16) cipher) else None)"

fun demo_atob :: "jsval \<Rightarrow> byte list option" where
  "demo_atob (JStr s) = Some (bytes_of s)"
| "demo_atob v = None"

definition demo_platform :: platform where
  "demo_platform =
     \<lparr>JSON_stringify = show_json,
      JSON_parse = read_json,
      utf8_encode = bytes_of,
      utf8_decode = chars_of,
      btoa_bytes = chars_of,
      atob_bytes = demo_atob,
      pbkdf2 = (\<lambda>password salt. take 32 (bytes_of password @ salt)),
      aes_gcm_encrypt = demo_encrypt,
      aes_gcm_decrypt = demo_decrypt,
      sha256 = (\<lambda>bs. [sum_list bs, of_nat (length bs)]),
      toISOString = (\<lambda>t. CHR ''T'' # show_int t)\<rparr>"

section \<open>Example data\<close>

definition active_session :: "int \<Rightarrow> session" where
  "active_session t =
     \<lparr>sessionId = ''5e55'', createdAt = 0, lastActivity = t, isActive = True\<rparr>"

definition session_world :: "int \<Rightarrow> world" where
  "session_world t =
     \<lparr>user_data_item = None, session_item = Some (active_session t), calls = []\<rparr>"

definition demo_salt :: "byte list" where
  "demo_salt = replicate 32 7"

definition demo_iv :: "byte list" where
  "demo_iv = replicate 12 9"

text \<open>A record that passes \<open>validateUserData\<close>; it has no phone number.\<close>

definition good_record :: jsval where
  "good_record = JObj
     [(''firstName'', JStr ''Al''),
      (''lastName'', JStr ''Bo''),
      (''email'', JStr ''a@b.cc''),
      (''shippingAddress'', JStr ''1 Rd''),
      (''iban'', JStr ''DE12ABCD1234567''),
      (''bic'', JStr ''ABCDEFGH''),
      (''bankAccountOwner'', JStr ''Al Bo''),
      (''password'', JStr ''pw''),
      (''termsAccepted'', JBool True),
      (''privacyAccepted'', JBool True)]"

text \<open>
  A record with the eight sensitive fields of the specification, each a non-empty string
  in the right format, and no \<open>password\<close> field.
\<close>

definition sensitive_only_record :: jsval where
  "sensitive_only_record = JObj
     [(''firstName'', JStr ''Al''),
      (''lastName'', JStr ''Bo''),
      (''email'', JStr ''a@b.cc''),
      (''phone'', JStr ''4912345''),
      (''shippingAddress'', JStr ''1 Rd''),
      (''iban'', JStr ''DE12ABCD1234567''),
      (''bic'', JStr ''ABCDEFGH''),
      (''bankAccountOwner'', JStr ''Al Bo'')]"

definition empty_world :: world where
  "empty_world = \<lparr>user_data_item = None, session_item = None, calls = []\<rparr>"

section \<open>Character classes\<close>

lemma is_digit_iff: "is_digit c \<longleftrightarrow> 48 \<le> code c \<and> code c \<le> 57"
  by (simp add: is_digit_def Let_def)

lemma is_upper_iff: "is_upper c \<longleftrightarrow> 65 \<le> code c \<and> code c \<le> 90"
  by (simp add: is_upper_def Let_def)

lemma is_lower_iff: "is_lower c \<longleftrightarrow> 97 \<le> code c \<and> code c \<le> 122"
  by (simp add: is_lower_def Let_def)

lemma is_space_iff:
  "is_space c \<longleftrightarrow> (9 \<le> code c \<and> code c \<le> 13) \<or> code c = 32 \<or> code c = 160"
  by (simp add: is_space_def Let_def)

lemma upper_char_iff:
  "upper_char c =
     (if 97 \<le> code c \<and> code c \<le> 122 then [char_of (code c - 32)]
      else if code c = 223 then ''SS''
      else if 224 \<le> code c \<and> code c \<le> 254 \<and> code c \<noteq> 247 then [char_of (code c - 32)]
      else [c])"
  by (simp add: upper_char_def Let_def)

lemma code_less: "code c < 256"
  by (simp add: code_def)

lemma code_char_of: "n < 256 \<Longrightarrow> code (char_of n) = n"
  by (simp add: code_def)

section \<open>Properties of the IBAN checksum\<close>

lemma mod97_loop_None: "mod97_loop None s = None"
  by (induction s) simp_all

lemma mod97_step: "(r mod 97 * 10 + d) mod 97 = (10 * r + d) mod (97::nat)"
proof -
  have "(r mod 97 * 10 + d) mod 97 = (r * 10 + d) mod 97"
    by (metis mod_add_left_eq mod_mult_left_eq)
  then show ?thesis by (simp add: mult.commute)
qed

lemma mod97_loop_digits:
  "list_all is_digit s \<Longrightarrow>
   mod97_loop (Some (r mod 97)) s = Some (foldl (\<lambda>a c. 10 * a + (code c - 48)) r s mod 97)"
proof (induction s arbitrary: r)
  case Nil
  then show ?case by simp
next
  case (Cons c cs)
  then show ?case by (simp add: parseInt_char_def mod97_step)
qed

lemma mod97_loop_nondigit:
  "\<not> list_all is_digit s \<Longrightarrow> mod97_loop r s = None"
proof (induction s arbitrary: r)
  case Nil
  then show ?case by simp
next
  case (Cons c cs)
  then show ?case
    by (cases "is_digit c") (auto simp: parseInt_char_def mod97_loop_None split: option.splits)
qed

lemma toString_two_digits:
  assumes "10 \<le> n" "n < 100"
  shows "toString_radix 10 n = [digit_char (n div 10), digit_char (n mod 10)]"
proof -
  have a: "toString_radix 10 n = toString_radix 10 (n div 10) @ [digit_char (n mod 10)]"
    using assms by (subst toString_radix.simps) simp
  have "n div 10 < 10" using assms by simp
  then have b: "toString_radix 10 (n div 10) = [digit_char (n div 10)]"
    by (subst toString_radix.simps) simp
  from a b show ?thesis by simp
qed

lemma letters_eq: "letters_to_numbers s = concat (map letter_digits s)"
proof -
  have "(if is_upper c then toString_radix 10 (code c - 55) else [c]) = letter_digits c" for c
  proof (cases "is_upper c")
    case True
    then have "10 \<le> code c - 55" "code c - 55 < 100"
      unfolding is_upper_iff by arith+
    then show ?thesis using True by (simp add: letter_digits_def toString_two_digits)
  next
    case False
    then show ?thesis by (simp add: letter_digits_def)
  qed
  then show ?thesis by (simp add: letters_to_numbers_def)
qed

lemma validate_iff_spec: "validateIBANChecksum s \<longleftrightarrow> iban_spec s"
proof -
  define n where "n = concat (map letter_digits (drop 4 (toUpperCase (filter (\<lambda>c. \<not> is_space c) s))
      @ take 4 (toUpperCase (filter (\<lambda>c. \<not> is_space c) s))))"
  have "mod97_loop (Some 0) n = Some 1 \<longleftrightarrow> list_all is_digit n \<and> decimal_value n mod 97 = 1"
  proof (cases "list_all is_digit n")
    case True
    from mod97_loop_digits [OF True, of 0] show ?thesis
      using True by (simp add: decimal_value_def)
  next
    case False
    then show ?thesis by (simp add: mod97_loop_nondigit)
  qed
  then show ?thesis
    by (simp add: validateIBANChecksum_def iban_spec_def Let_def letters_eq n_def)
qed



lemma foldl_decimal_acc:
  "foldl (\<lambda>a c. 10 * a + (code c - 48)) a s = a * 10 ^ length s + decimal_value s"
proof (induction s arbitrary: a)
  case Nil
  then show ?case by (simp add: decimal_value_def)
next
  case (Cons c cs)
  have "foldl (\<lambda>a c. 10 * a + (code c - 48)) a (c # cs)
      = (10 * a + (code c - 48)) * 10 ^ length cs + decimal_value cs"
    by (simp add: Cons.IH)
  moreover have "decimal_value (c # cs) = (code c - 48) * 10 ^ length cs + decimal_value cs"
    by (simp add: decimal_value_def Cons.IH [of "code c - 48"])
  ultimately show ?case by (simp add: algebra_simps)
qed

lemma decimal_value_append:
  "decimal_value (xs @ ys) = decimal_value xs * 10 ^ length ys + decimal_value ys"
proof -
  have "decimal_value (xs @ ys) = foldl (\<lambda>a c. 10 * a + (code c - 48)) (decimal_value xs) ys"
    by (simp add: decimal_value_def)
  then show ?thesis by (simp add: foldl_decimal_acc)
qed

lemma decimal_value_Cons:
  "decimal_value (c # cs) = (code c - 48) * 10 ^ length cs + decimal_value cs"
  using decimal_value_append [of "[c]" cs] by (simp add: decimal_value_def)

lemma coprime_97_pow10: "coprime (97::nat) (10 ^ k)"
proof -
  have "coprime (97::nat) 10" by code_simp
  then show ?thesis by simp
qed

lemma digit_gap:
  assumes "97 dvd (w::nat) * 10 ^ k" "w < 10"
  shows "w = 0"
proof -
  from assms(1) have "97 dvd w"
    using coprime_97_pow10 [of k] by (simp add: coprime_dvd_mult_left_iff)
  with assms(2) show ?thesis by (auto dest: dvd_imp_le)
qed

lemma digit_value_inj:
  assumes "is_digit a" "is_digit b" "code a - 48 = code b - 48"
  shows "a = b"
proof -
  from assms have "code a = code b" unfolding is_digit_iff by arith
  then show ?thesis by (simp add: code_def)
qed

lemma mod97_gap_le:
  assumes "(X + va * 10 ^ k) mod 97 = (X + vb * 10 ^ k) mod (97::nat)" "va \<le> vb" "vb < 10"
  shows "va = vb"
proof -
  have le: "X + va * 10 ^ k \<le> X + vb * 10 ^ k"
    using assms(2) by simp
  have "97 dvd (X + vb * 10 ^ k) - (X + va * 10 ^ k)"
    using mod_eq_dvd_iff_nat [OF le, of 97] assms(1) by metis
  moreover have "(X + vb * 10 ^ k) - (X + va * 10 ^ k) = (vb - va) * 10 ^ k"
    by (simp add: diff_mult_distrib)
  ultimately have "97 dvd (vb - va) * 10 ^ k" by simp
  moreover have "vb - va < 10" using assms(3) by simp
  ultimately have "vb - va = 0" by (rule digit_gap)
  with assms(2) show ?thesis by simp
qed

lemma changed_digit_mod97:
  assumes "is_digit a" "is_digit b" "a \<noteq> b"
  shows "decimal_value (xs @ a # ys) mod 97 \<noteq> decimal_value (xs @ b # ys) mod 97"
proof
  define k where "k = length ys"
  define X where "X = decimal_value xs * 10 ^ Suc k + decimal_value ys"
  define va where "va = code a - 48"
  define vb where "vb = code b - 48"
  assume eq: "decimal_value (xs @ a # ys) mod 97 = decimal_value (xs @ b # ys) mod 97"
  have da: "decimal_value (xs @ a # ys) = X + va * 10 ^ k"
    by (simp add: decimal_value_append decimal_value_Cons X_def va_def k_def algebra_simps)
  have db: "decimal_value (xs @ b # ys) = X + vb * 10 ^ k"
    by (simp add: decimal_value_append decimal_value_Cons X_def vb_def k_def algebra_simps)
  have va: "va < 10" and vb: "vb < 10"
    using assms(1,2) unfolding is_digit_iff va_def vb_def by arith+
  from eq have eq': "(X + va * 10 ^ k) mod 97 = (X + vb * 10 ^ k) mod 97"
    by (simp only: da db)
  have "va = vb"
  proof (cases "va \<le> vb")
    case True
    from mod97_gap_le [OF eq' True vb] show ?thesis .
  next
    case False
    then have "vb \<le> va" by simp
    from mod97_gap_le [OF eq' [symmetric] this va] show ?thesis by simp
  qed
  then have "a = b"
    using digit_value_inj [OF assms(1,2)] by (simp add: va_def vb_def)
  with assms(3) show False by simp
qed

lemma changed_update_mod97:
  assumes "j < length u" "is_digit (u ! j)" "is_digit d" "d \<noteq> u ! j"
  shows "decimal_value (u[j := d]) mod 97 \<noteq> decimal_value u mod 97"
proof -
  have "u[j := d] = take j u @ d # drop (Suc j) u"
    using assms(1) by (rule upd_conv_take_nth_drop)
  moreover have "u = take j u @ u ! j # drop (Suc j) u"
    using assms(1) by (rule id_take_nth_drop)
  ultimately show ?thesis
    using changed_digit_mod97 [OF assms(3,2,4), of "take j u" "drop (Suc j) u"] by metis
qed


lemma digit_plain:
  assumes "is_digit c"
  shows "\<not> is_space c" "upper_char c = [c]" "letter_digits c = [c]"
  using assms
  by (auto simp: is_digit_iff is_space_iff upper_char_iff letter_digits_def is_lower_iff is_upper_iff)

lemma digits_plain:
  assumes "list_all is_digit ds"
  shows "filter (\<lambda>c. \<not> is_space c) ds = ds" "toUpperCase ds = ds"
    "concat (map letter_digits ds) = ds"
  using assms by (induction ds) (simp_all add: digit_plain toUpperCase_def)

lemma iban_spec_DE:
  assumes "list_all is_digit ds" "2 \<le> length ds"
  shows "iban_spec (CHR ''D'' # CHR ''E'' # ds) \<longleftrightarrow> decimal_value (DE_numeric ds) mod 97 = 1"
proof -
  have sp: "\<not> is_space CHR ''D''" "\<not> is_space CHR ''E''" by code_simp+
  have up: "upper_char CHR ''D'' = ''D''" "upper_char CHR ''E'' = ''E''" by code_simp+
  have ld: "letter_digits CHR ''D'' = ''13''" "letter_digits CHR ''E'' = ''14''" by code_simp+
  have d1314: "list_all is_digit ''1314''" by code_simp
  have t: "toUpperCase (filter (\<lambda>c. \<not> is_space c) (CHR ''D'' # CHR ''E'' # ds))
      = CHR ''D'' # CHR ''E'' # ds"
    using digits_plain(1,2) [OF assms(1)] sp up by (simp add: toUpperCase_def)
  have mv: "drop 4 (CHR ''D'' # CHR ''E'' # ds) @ take 4 (CHR ''D'' # CHR ''E'' # ds)
      = drop 2 ds @ (CHR ''D'' # CHR ''E'' # take 2 ds)"
    by (simp add: numeral_eq_Suc)
  have tk: "list_all is_digit (take 2 ds)" and dr: "list_all is_digit (drop 2 ds)"
    using assms(1) by (auto simp: list_all_iff dest: in_set_takeD in_set_dropD)
  have num: "concat (map letter_digits (drop 2 ds @ (CHR ''D'' # CHR ''E'' # take 2 ds)))
      = DE_numeric ds"
    using digits_plain(3) [OF tk] digits_plain(3) [OF dr] ld by (simp add: DE_numeric_def)
  have dg: "list_all is_digit (DE_numeric ds)"
    using tk dr d1314 by (simp add: DE_numeric_def)
  have "iban_spec (CHR ''D'' # CHR ''E'' # ds)
      \<longleftrightarrow> list_all is_digit (DE_numeric ds) \<and> decimal_value (DE_numeric ds) mod 97 = 1"
    unfolding iban_spec_def Let_def by (simp only: t mv num)
  with dg show ?thesis by simp
qed

lemma update_after_prefix: "(A @ B)[length A + n := d] = A @ B[n := d]"
  by (simp add: list_update_append)

lemma DE_numeric_update:
  assumes "j < length ds" "2 \<le> length ds"
  shows "\<exists>j'. j' < length (DE_numeric ds) \<and> DE_numeric (ds[j := d]) = (DE_numeric ds)[j' := d]
            \<and> DE_numeric ds ! j' = ds ! j"
proof (cases "j < 2")
  case True
  define A where "A = drop 2 ds"
  define B where "B = ''1314''"
  define T where "T = take 2 ds"
  define j' where "j' = length A + (length B + j)"
  have N: "DE_numeric ds = A @ (B @ T)"
    by (simp add: DE_numeric_def A_def B_def T_def)
  have jT: "j < length T" using True assms by (simp add: T_def)
  have "DE_numeric (ds[j := d]) = A @ (B @ T[j := d])"
    using True by (simp add: DE_numeric_def take_update_swap A_def B_def T_def)
  also have "\<dots> = (A @ (B @ T))[j' := d]"
    by (simp only: j'_def update_after_prefix)
  finally have a: "DE_numeric (ds[j := d]) = (DE_numeric ds)[j' := d]"
    by (simp only: N)
  have b: "j' < length (DE_numeric ds)"
    using jT by (simp add: N j'_def)
  have "(A @ (B @ T)) ! j' = T ! j"
    by (simp only: j'_def nth_append_length_plus)
  then have c: "DE_numeric ds ! j' = ds ! j"
    using True by (simp add: N T_def)
  from a b c show ?thesis by blast
next
  case False
  define A where "A = drop 2 ds"
  define R where "R = ''1314'' @ take 2 ds"
  define j' where "j' = j - 2"
  have N: "DE_numeric ds = A @ R"
    by (simp add: DE_numeric_def A_def R_def)
  have jA: "j' < length A" using False assms by (simp add: A_def j'_def)
  have "DE_numeric (ds[j := d]) = A[j' := d] @ R"
    using False by (simp add: DE_numeric_def drop_update_swap A_def R_def j'_def)
  also have "\<dots> = (A @ R)[j' := d]"
    using jA by (simp add: list_update_append)
  finally have a: "DE_numeric (ds[j := d]) = (DE_numeric ds)[j' := d]"
    by (simp only: N)
  have b: "j' < length (DE_numeric ds)"
    using jA by (simp add: N)
  have "(A @ R) ! j' = A ! j'"
    using jA by (simp add: nth_append)
  moreover have "2 + j' = j" using False by (simp add: j'_def)
  then have "A ! j' = ds ! j"
    using assms(2) by (simp add: A_def)
  ultimately have c: "DE_numeric ds ! j' = ds ! j"
    by (simp add: N)
  from a b c show ?thesis by blast
qed

lemma iban_DE_changed:
  assumes ds: "list_all is_digit ds" and len: "2 \<le> length ds" and j: "j < length ds"
    and d: "is_digit d" "d \<noteq> ds ! j" and ok: "iban_spec (CHR ''D'' # CHR ''E'' # ds)"
  shows "\<not> iban_spec (CHR ''D'' # CHR ''E'' # ds[j := d])"
proof -
  obtain j' where j': "j' < length (DE_numeric ds)"
      "DE_numeric (ds[j := d]) = (DE_numeric ds)[j' := d]" "DE_numeric ds ! j' = ds ! j"
    using DE_numeric_update [OF j len] by blast
  have dj: "is_digit (ds ! j)" using ds j by (simp add: list_all_length)
  have ds': "list_all is_digit (ds[j := d])"
    using ds d(1) by (auto simp: list_all_iff dest: set_update_subset_insert [THEN subsetD])
  have len': "2 \<le> length (ds[j := d])" using len by simp
  have "decimal_value ((DE_numeric ds)[j' := d]) mod 97 \<noteq> decimal_value (DE_numeric ds) mod 97"
    using changed_update_mod97 [OF j'(1), of d] dj d j'(3) by simp
  moreover have "decimal_value (DE_numeric ds) mod 97 = 1"
    using ok iban_spec_DE [OF ds len] by simp
  ultimately have "decimal_value (DE_numeric (ds[j := d])) mod 97 \<noteq> 1"
    by (simp add: j'(2))
  then show ?thesis
    using iban_spec_DE [OF ds' len'] by simp
qed

lemma example_changed:
  assumes "2 \<le> i" "i < 22" "is_digit d" "d \<noteq> example_iban ! i"
  shows "\<not> validateIBANChecksum (example_iban[i := d])"
proof -
  define ds where "ds = ''89370400440532013000''"
  have ex: "example_iban = CHR ''D'' # CHR ''E'' # ds" by (simp add: example_iban_def ds_def)
  have dig: "list_all is_digit ds" unfolding ds_def by code_simp
  have len: "length ds = 20" by (simp add: ds_def)
  have ok: "iban_spec (CHR ''D'' # CHR ''E'' # ds)"
  proof -
    have "validateIBANChecksum example_iban" by code_simp
    then show ?thesis by (simp add: validate_iff_spec ex)
  qed
  obtain k where k: "i = Suc (Suc k)"
    using assms(1) by (metis Suc_le_D numeral_2_eq_2 Suc_le_mono)
  have upd: "example_iban[i := d] = CHR ''D'' # CHR ''E'' # ds[k := d]"
    unfolding ex k by simp
  have nth: "example_iban ! i = ds ! k"
    unfolding ex k by simp
  have "k < length ds" using assms(2) k len by simp
  then have "\<not> iban_spec (CHR ''D'' # CHR ''E'' # ds[k := d])"
    using assms(3,4) len nth by (intro iban_DE_changed [OF dig _ _ _ _ ok]) simp_all
  then show ?thesis by (simp add: validate_iff_spec upd)
qed


text \<open>
  Claim C6. \<open>validateIBANChecksum s\<close> is true exactly when, after removing the white
  space and upper-casing, moving the first four characters to the end and replacing each
  letter by the two digits of its code minus 55, the result is a digit string whose
  decimal value leaves the remainder 1 modulo 97. It is true for
  \<open>DE89370400440532013000\<close>, and false for that string with any one of its digits
  (positions 2 to 21) replaced by a different digit.
\<close>

theorem validateIBANChecksum_mod97:
  "(validateIBANChecksum s \<longleftrightarrow> iban_spec s) \<and>
   validateIBANChecksum example_iban \<and>
   (2 \<le> i \<and> i < 22 \<and> is_digit d \<and> d \<noteq> example_iban ! i
      \<longrightarrow> \<not> validateIBANChecksum (example_iban[i := d]))"
proof (intro conjI impI)
  show "validateIBANChecksum s \<longleftrightarrow> iban_spec s"
    by (rule validate_iff_spec)
  show "validateIBANChecksum example_iban"
    by code_simp
  show "\<not> validateIBANChecksum (example_iban[i := d])"
    if "2 \<le> i \<and> i < 22 \<and> is_digit d \<and> d \<noteq> example_iban ! i"
    using that by (intro example_changed) simp_all
qed

theorem validateIBANChecksum_mod97_witness:
  "(validateIBANChecksum ''de89 3704 0044 0532 0130 00''
      \<longleftrightarrow> iban_spec ''de89 3704 0044 0532 0130 00'') \<and>
   validateIBANChecksum example_iban \<and>
   (2::nat) \<le> 21 \<and> (21::nat) < 22 \<and> is_digit CHR ''7'' \<and> CHR ''7'' \<noteq> example_iban ! 21 \<and>
   \<not> validateIBANChecksum (example_iban[21 := CHR ''7''])"
proof -
  have a: "is_digit CHR ''7''" by code_simp
  have b: "CHR ''7'' \<noteq> example_iban ! 21" by code_simp
  show ?thesis
    using validateIBANChecksum_mod97 [of "''de89 3704 0044 0532 0130 00''" 21 "CHR ''7''"] a b
    by simp
qed

section \<open>The matcher decides membership\<close>

lemma lang_alt: "lang (alt r s) = lang r \<union> lang s"
  by (induction r s rule: alt.induct) simp_all

lemma lang_seq: "lang (seq r s) = lang (Seq r s)"
  by (induction r s rule: seq.induct) auto

lemma nullable_lang: "nullable r \<longleftrightarrow> [] \<in> lang r"
  by (induction r) (auto intro: star_empty)

lemma star_Cons_split:
  assumes "x \<in> star L" "x = c # w"
  shows "\<exists>u v. w = u @ v \<and> c # u \<in> L \<and> v \<in> star L"
  using assms
proof (induction arbitrary: w rule: star.induct)
  case star_empty
  then show ?case by simp
next
  case (star_step u v)
  show ?case
  proof (cases u)
    case Nil
    with star_step show ?thesis by simp
  next
    case (Cons a u')
    with star_step.prems have "a = c" "w = u' @ v" by simp_all
    with star_step.hyps(1,2) Cons show ?thesis by blast
  qed
qed

lemma star_Cons_iff:
  "c # w \<in> star L \<longleftrightarrow> (\<exists>u v. w = u @ v \<and> c # u \<in> L \<and> v \<in> star L)"
proof
  assume "c # w \<in> star L"
  then show "\<exists>u v. w = u @ v \<and> c # u \<in> L \<and> v \<in> star L"
    by (rule star_Cons_split) simp
next
  assume "\<exists>u v. w = u @ v \<and> c # u \<in> L \<and> v \<in> star L"
  then obtain u v where "w = u @ v" "c # u \<in> L" "v \<in> star L" by blast
  then show "c # w \<in> star L"
    using star_step [of "c # u" L v] by simp
qed

lemma lang_deriv: "lang (deriv c r) = {w. c # w \<in> lang r}"
proof (induction r)
  case (Seq r s)
  show ?case
  proof (cases "nullable r")
    case True
    then show ?thesis
      using Seq by (auto simp: lang_alt lang_seq nullable_lang Cons_eq_append_conv)
  next
    case False
    then show ?thesis
      using Seq by (auto simp: lang_seq nullable_lang Cons_eq_append_conv)
  qed
next
  case (Star r)
  then show ?case
    by (auto simp: lang_seq star_Cons_iff)
qed (auto simp: lang_alt)

lemma matches_lang: "matches r s \<longleftrightarrow> s \<in> lang r"
  by (induction s arbitrary: r) (simp_all add: nullable_lang lang_deriv)

lemma matches_Zero: "\<not> matches Zero s"
  by (simp add: matches_lang)

lemma matches_One: "matches One s \<longleftrightarrow> s = []"
  by (simp add: matches_lang)

lemma matches_exactly_Atom:
  "matches (exactly n (Atom P)) s \<longleftrightarrow> length s = n \<and> list_all P s"
proof (induction n arbitrary: s)
  case 0
  then show ?case by (auto simp: matches_One)
next
  case (Suc n)
  show ?case
  proof (cases s)
    case Nil
    then show ?thesis by simp
  next
    case (Cons c cs)
    have "matches (exactly (Suc n) (Atom P)) (c # cs)
        \<longleftrightarrow> P c \<and> matches (exactly n (Atom P)) cs"
    proof (cases "P c")
      case True
      then have d: "deriv c (exactly (Suc n) (Atom P)) = seq One (exactly n (Atom P))"
        by simp
      have "matches (exactly (Suc n) (Atom P)) (c # cs)
          = matches (deriv c (exactly (Suc n) (Atom P))) cs"
        by (simp only: matches.simps)
      also have "\<dots> = matches (seq One (exactly n (Atom P))) cs"
        by (simp only: d)
      also have "\<dots> = matches (exactly n (Atom P)) cs"
        by (simp add: matches_lang lang_seq)
      finally show ?thesis using True by simp
    next
      case False
      then have d: "deriv c (exactly (Suc n) (Atom P)) = Zero"
        by simp
      have "matches (exactly (Suc n) (Atom P)) (c # cs)
          = matches (deriv c (exactly (Suc n) (Atom P))) cs"
        by (simp only: matches.simps)
      also have "\<dots> = False"
        by (simp only: d matches_Zero)
      finally show ?thesis using False by simp
    qed
    with Suc Cons show ?thesis by auto
  qed
qed

section \<open>Generated session tokens\<close>

lemma is_hex_lower_iff:
  "is_hex_lower c \<longleftrightarrow> (97 \<le> code c \<and> code c \<le> 102) \<or> (48 \<le> code c \<and> code c \<le> 57)"
  by (simp add: is_hex_lower_def Let_def)

lemma digit_char_hex:
  assumes "n < 16"
  shows "is_hex_lower (digit_char n)"
proof (cases "n < 10")
  case True
  then have "code (digit_char n) = 48 + n"
    by (simp add: digit_char_def code_char_of)
  with True show ?thesis by (simp add: is_hex_lower_iff)
next
  case False
  with assms have "code (digit_char n) = 87 + n"
    by (simp add: digit_char_def code_char_of)
  with False assms show ?thesis by (simp add: is_hex_lower_iff)
qed

lemma toString_16_small:
  "n < 16 \<Longrightarrow> toString_radix 16 n = [digit_char n]"
  by (subst toString_radix.simps) simp

lemma toString_16_byte:
  assumes "16 \<le> n" "n < 256"
  shows "toString_radix 16 n = [digit_char (n div 16), digit_char (n mod 16)]"
proof -
  have "toString_radix 16 n = toString_radix 16 (n div 16) @ [digit_char (n mod 16)]"
    using assms by (subst toString_radix.simps) simp
  moreover have "n div 16 < 16" using assms by simp
  ultimately show ?thesis by (simp add: toString_16_small)
qed

lemma hex_of_byte:
  fixes b :: byte
  shows "\<exists>c1 c2. padStart 2 (CHR ''0'') (toString_radix 16 (unat b)) = [c1, c2]
           \<and> is_hex_lower c1 \<and> is_hex_lower c2"
proof -
  have lt: "unat b < 256"
    using unsigned_less [of b, where ?'a = nat] by simp
  show ?thesis
  proof (cases "unat b < 16")
    case True
    have zero: "is_hex_lower (CHR ''0'')" by code_simp
    have "padStart 2 (CHR ''0'') (toString_radix 16 (unat b)) = [CHR ''0'', digit_char (unat b)]"
      using True by (simp add: toString_16_small padStart_def)
    with zero digit_char_hex [OF True] show ?thesis by blast
  next
    case False
    then have ge: "16 \<le> unat b" by simp
    have d1: "is_hex_lower (digit_char (unat b div 16))"
      using lt by (intro digit_char_hex) simp
    have d2: "is_hex_lower (digit_char (unat b mod 16))"
      by (intro digit_char_hex) simp
    have "padStart 2 (CHR ''0'') (toString_radix 16 (unat b))
        = [digit_char (unat b div 16), digit_char (unat b mod 16)]"
      by (simp add: toString_16_byte [OF ge lt] padStart_def)
    with d1 d2 show ?thesis by blast
  qed
qed

lemma to_hex_shape:
  "length (to_hex bs) = 2 * length bs \<and> list_all is_hex_lower (to_hex bs)"
proof (induction bs)
  case Nil
  then show ?case by (simp add: to_hex_def)
next
  case (Cons b bs)
  obtain c1 c2 where "padStart 2 (CHR ''0'') (toString_radix 16 (unat b)) = [c1, c2]"
      "is_hex_lower c1" "is_hex_lower c2"
    using hex_of_byte [of b] by blast
  with Cons show ?case by (simp add: to_hex_def)
qed

text \<open>
  Claim C10. For every content of the 32-byte random array, the token that
  \<open>generateSessionToken\<close> returns is a string of exactly 64 characters, each a digit or
  a lower-case letter from a to f, and \<open>validateSessionToken\<close> accepts it.
\<close>

theorem generated_token_is_valid:
  assumes "length array = 32"
  shows "length (generateSessionToken array) = 64 \<and>
         list_all is_hex_lower (generateSessionToken array) \<and>
         validateSessionToken (JStr (generateSessionToken array))"
proof -
  have len: "length (generateSessionToken array) = 64"
    using assms to_hex_shape [of array] by (simp add: generateSessionToken_def)
  have hex: "list_all is_hex_lower (generateSessionToken array)"
    using to_hex_shape [of array] by (simp add: generateSessionToken_def)
  have "generateSessionToken array \<noteq> []"
    using len by auto
  moreover have "matches tokenRegex (generateSessionToken array)"
    using len hex by (simp add: tokenRegex_def matches_exactly_Atom)
  ultimately show ?thesis
    using len hex by simp
qed

theorem generated_token_is_valid_witness:
  "length (replicate 32 (0xAB :: byte)) = 32 \<and>
   length (generateSessionToken (replicate 32 (0xAB :: byte))) = 64 \<and>
   list_all is_hex_lower (generateSessionToken (replicate 32 (0xAB :: byte))) \<and>
   validateSessionToken (JStr (generateSessionToken (replicate 32 (0xAB :: byte))))"
  using generated_token_is_valid [of "replicate 32 (0xAB :: byte)"] by simp

section \<open>The rate limiter\<close>

lemma checkRateLimit_allowed:
  assumes "filter (\<lambda>t. t > now - windowMs) (case store (rate_key ident act) of None \<Rightarrow> [] | Some a \<Rightarrow> a) = xs"
    and "int (length xs) < limit"
  shows "checkRateLimit now store ident act limit windowMs =
           (\<lparr>allowed = True, remaining = limit - int (length (xs @ [now])),
             resetTime = Some (now + windowMs)\<rparr>,
            store(rate_key ident act \<mapsto> xs @ [now]))"
  using assms by (simp add: checkRateLimit_def Let_def)

lemma checkRateLimit_denied:
  assumes "filter (\<lambda>t. t > now - windowMs) (case store (rate_key ident act) of None \<Rightarrow> [] | Some a \<Rightarrow> a) = xs"
    and "limit \<le> int (length xs)"
  shows "fst (checkRateLimit now store ident act limit windowMs) =
           \<lparr>allowed = False, remaining = 0,
            resetTime = (case xs of [] \<Rightarrow> None | t # _ \<Rightarrow> Some (t + windowMs))\<rparr>"
    and "snd (checkRateLimit now store ident act limit windowMs) = store"
  using assms by (simp_all add: checkRateLimit_def Let_def)

text \<open>
  Claim C7. With limit 3 and a window of 1000 ms, start from a store whose recorded
  attempts for the key, if any, are all out of the window of the first call. Of four calls
  for the same action and identifier at times \<open>t1 \<le> t2 \<le> t3 \<le> t4\<close> with
  \<open>t4 - t1 < 1000\<close>, the first three are allowed and the fourth is denied; the denied
  call leaves the store as it was; and a call at a time \<open>t5\<close> at which the three
  recorded attempts are out of the window (\<open>t3 + 1000 \<le> t5\<close>) is allowed again.
\<close>

theorem rate_limit_three_per_window:
  assumes old: "\<forall>t \<in> set (case store (rate_key ident act) of None \<Rightarrow> [] | Some a \<Rightarrow> a). t \<le> t1 - 1000"
    and order: "t1 \<le> t2" "t2 \<le> t3" "t3 \<le> t4"
    and within: "t4 - t1 < 1000"
    and later: "t3 + 1000 \<le> t5"
  shows "(let (r1, s1) = checkRateLimit t1 store ident act 3 1000;
              (r2, s2) = checkRateLimit t2 s1 ident act 3 1000;
              (r3, s3) = checkRateLimit t3 s2 ident act 3 1000;
              (r4, s4) = checkRateLimit t4 s3 ident act 3 1000;
              (r5, s5) = checkRateLimit t5 s4 ident act 3 1000
          in allowed r1 \<and> allowed r2 \<and> allowed r3 \<and> \<not> allowed r4 \<and> s4 = s3 \<and> allowed r5)"
proof -
  let ?k = "rate_key ident act"
  let ?old = "case store ?k of None \<Rightarrow> [] | Some a \<Rightarrow> a"
  have f1: "filter (\<lambda>t. t > t1 - 1000) ?old = []"
    using old by (auto simp: filter_empty_conv)
  define s1 where "s1 = store(?k \<mapsto> [t1])"
  define s2 where "s2 = s1(?k \<mapsto> [t1, t2])"
  define s3 where "s3 = s2(?k \<mapsto> [t1, t2, t3])"
  define s5 where "s5 = s3(?k \<mapsto> [t5])"
  have c1: "checkRateLimit t1 store ident act 3 1000 =
      (\<lparr>allowed = True, remaining = 2, resetTime = Some (t1 + 1000)\<rparr>, s1)"
    using checkRateLimit_allowed [where now=t1 and windowMs=1000 and store=store and ident=ident
        and act=act and xs="[]" and limit=3, OF f1] by (simp add: s1_def)
  have f2: "filter (\<lambda>t. t > t2 - 1000) (case s1 ?k of None \<Rightarrow> [] | Some a \<Rightarrow> a) = [t1]"
    using order within by (simp add: s1_def)
  have c2: "checkRateLimit t2 s1 ident act 3 1000 =
      (\<lparr>allowed = True, remaining = 1, resetTime = Some (t2 + 1000)\<rparr>, s2)"
    using checkRateLimit_allowed [where now=t2 and windowMs=1000 and store=s1 and ident=ident
        and act=act and xs="[t1]" and limit=3, OF f2] by (simp add: s2_def)
  have f3: "filter (\<lambda>t. t > t3 - 1000) (case s2 ?k of None \<Rightarrow> [] | Some a \<Rightarrow> a) = [t1, t2]"
    using order within by (simp add: s2_def)
  have c3: "checkRateLimit t3 s2 ident act 3 1000 =
      (\<lparr>allowed = True, remaining = 0, resetTime = Some (t3 + 1000)\<rparr>, s3)"
    using checkRateLimit_allowed [where now=t3 and windowMs=1000 and store=s2 and ident=ident
        and act=act and xs="[t1, t2]" and limit=3, OF f3] by (simp add: s3_def)
  have f4: "filter (\<lambda>t. t > t4 - 1000) (case s3 ?k of None \<Rightarrow> [] | Some a \<Rightarrow> a) = [t1, t2, t3]"
    using order within by (simp add: s3_def)
  have c4: "checkRateLimit t4 s3 ident act 3 1000 =
      (\<lparr>allowed = False, remaining = 0, resetTime = Some (t1 + 1000)\<rparr>, s3)"
    using checkRateLimit_denied [where now=t4 and windowMs=1000 and store=s3 and ident=ident
        and act=act and xs="[t1, t2, t3]" and limit=3, OF f4] by (simp add: prod_eq_iff)
  have f5: "filter (\<lambda>t. t > t5 - 1000) (case s3 ?k of None \<Rightarrow> [] | Some a \<Rightarrow> a) = []"
    using order later by (simp add: s3_def)
  have c5: "checkRateLimit t5 s3 ident act 3 1000 =
      (\<lparr>allowed = True, remaining = 2, resetTime = Some (t5 + 1000)\<rparr>, s5)"
    using checkRateLimit_allowed [where now=t5 and windowMs=1000 and store=s3 and ident=ident
        and act=act and xs="[]" and limit=3, OF f5] by (simp add: s5_def)
  show ?thesis
    by (simp add: c1 c2 c3 c4 c5)
qed

theorem rate_limit_three_per_window_witness:
  "list_all (\<lambda>t. t \<le> 5000 - 1000)
     (case (Map.empty :: attempt_store) (rate_key ''a@b.cc'' ''register'') of
        None \<Rightarrow> [] | Some a \<Rightarrow> a) \<and>
   (5000::int) \<le> 5100 \<and> (5100::int) \<le> 5200 \<and> (5200::int) \<le> 5900 \<and>
   (5900::int) - 5000 < 1000 \<and> (5200::int) + 1000 \<le> 6200 \<and>
   (let (r1, s1) = checkRateLimit 5000 Map.empty ''a@b.cc'' ''register'' 3 1000;
        (r2, s2) = checkRateLimit 5100 s1 ''a@b.cc'' ''register'' 3 1000;
        (r3, s3) = checkRateLimit 5200 s2 ''a@b.cc'' ''register'' 3 1000;
        (r4, s4) = checkRateLimit 5900 s3 ''a@b.cc'' ''register'' 3 1000;
        (r5, s5) = checkRateLimit 6200 s4 ''a@b.cc'' ''register'' 3 1000
    in allowed r1 \<and> allowed r2 \<and> allowed r3 \<and> \<not> allowed r4 \<and> s4 = s3 \<and> allowed r5)"
proof -
  have h: "\<forall>t \<in> set (case (Map.empty :: attempt_store) (rate_key ''a@b.cc'' ''register'') of
                 None \<Rightarrow> [] | Some a \<Rightarrow> a). t \<le> 5000 - 1000"
    by simp
  show ?thesis
    using rate_limit_three_per_window [OF h, of 5100 5200 5900 6200]
    by simp
qed

section \<open>Session freshness\<close>

text \<open>
  Claim C9. \<open>isSessionValid\<close> is true exactly when a session is stored, its
  \<open>isActive\<close> flag is true and the time since its \<open>lastActivity\<close> is less than 24
  hours. An active session last used 25 hours ago is invalid; one last used 23 hours ago
  is valid.
\<close>

theorem isSessionValid_iff:
  "(isSessionValid now w \<longleftrightarrow>
      (\<exists>s. session_item w = Some s \<and> isActive s \<and> now - lastActivity s < 24 * 60 * 60 * 1000)) \<and>
   (session_item w = Some s \<and> isActive s \<and> lastActivity s = now - 25 * 60 * 60 * 1000
      \<longrightarrow> \<not> isSessionValid now w) \<and>
   (session_item w = Some s \<and> isActive s \<and> lastActivity s = now - 23 * 60 * 60 * 1000
      \<longrightarrow> isSessionValid now w)"
  by (auto simp: isSessionValid_def Let_def split: option.splits)

theorem isSessionValid_iff_witness:
  "session_item (session_world (90000000 - 23 * 60 * 60 * 1000)) = Some (active_session (90000000 - 23 * 60 * 60 * 1000)) \<and>
   isActive (active_session (90000000 - 23 * 60 * 60 * 1000)) \<and>
   lastActivity (active_session (90000000 - 23 * 60 * 60 * 1000)) = 90000000 - 23 * 60 * 60 * 1000 \<and>
   isSessionValid 90000000 (session_world (90000000 - 23 * 60 * 60 * 1000)) \<and>
   session_item (session_world (90000000 - 25 * 60 * 60 * 1000)) = Some (active_session (90000000 - 25 * 60 * 60 * 1000)) \<and>
   isActive (active_session (90000000 - 25 * 60 * 60 * 1000)) \<and>
   lastActivity (active_session (90000000 - 25 * 60 * 60 * 1000)) = 90000000 - 25 * 60 * 60 * 1000 \<and>
   \<not> isSessionValid 90000000 (session_world (90000000 - 25 * 60 * 60 * 1000))"
  using isSessionValid_iff [of 90000000 "session_world (90000000 - 23 * 60 * 60 * 1000)"
      "active_session (90000000 - 23 * 60 * 60 * 1000)"]
    isSessionValid_iff [of 90000000 "session_world (90000000 - 25 * 60 * 60 * 1000)"
      "active_session (90000000 - 25 * 60 * 60 * 1000)"]
  by (simp add: session_world_def active_session_def)

section \<open>sanitizeInput\<close>

lemma set_replace_ci: "set (replace_ci pat s) \<subseteq> set s"
proof (induction pat s rule: replace_ci.induct)
  case (1 pat)
  then show ?case by simp
next
  case (2 pat c cs)
  have "set (drop (length pat - 1) cs) \<subseteq> set cs"
    by (rule set_drop_subset)
  with 2 show ?case by auto
qed

lemma set_remove_chars: "set (remove_chars cs s) = set s - set cs"
  by (auto simp: remove_chars_def)

lemma replace_ci_avoids: "c \<notin> set s \<Longrightarrow> c \<notin> set (replace_ci pat s)"
  using set_replace_ci [of pat s] by blast

text \<open>
  The characters of the deny-list are gone from every result: the later passes only
  delete.
\<close>

lemma sanitize_string_no_denied_chars:
  "list_all (\<lambda>c. c \<notin> set denied_chars) (sanitize_string s)"
proof -
  have "c \<notin> set (sanitize_string s)" if "c \<in> set denied_chars" for c
  proof -
    from that have "c \<notin> set
       (remove_chars ''[]'' (remove_chars ''{}'' (remove_chars ''()'' (remove_chars '';''
         (remove_chars [CHR 0x27, CHR 0x22] (remove_chars ''<>'' (trim s)))))))"
      by (auto simp: set_remove_chars denied_chars_def)
    then show ?thesis
      unfolding sanitize_string_def by (intro replace_ci_avoids)
  qed
  then show ?thesis by (auto simp: list_all_iff)
qed

text \<open>
  Claim C8. The result of \<open>sanitizeInput\<close> is claimed to contain no word of the
  deny-list. Each word is removed in one pass and the result of a pass is not scanned
  again: for the input \<open>scrscriptipt\<close> the pass for \<open>script\<close> removes the inner
  occurrence and leaves \<open>script\<close>, which no later pass removes.
\<close>

theorem sanitizeInput_leaves_script:
  "sanitizeInput (JStr ''scrscriptipt'') = JStr ''script'' \<and> \<not> sanitized ''script''"
  by code_simp

end
